theory Spec2Isabelle
  imports Complex_Main "HOL-Library.AList"
begin

section \<open>Data model\<close>

text \<open>
  The exceptions the modelled functions can raise. A function that can raise returns
  \<open>py_error + 'a\<close>, with \<open>Inl\<close> for the exception.
\<close>

datatype py_error = ValueError | IndexError | ZeroDivisionError | RuntimeError | TypeError

text \<open>
  Signal values, fitted parameters and thresholds are real numbers. The only division the
  control flow depends on is a count divided by the size of the label matrix, which numpy
  evaluates to \<open>nan\<close> (with a warning, no exception) when the matrix is empty; fractions
  therefore carry an explicit \<open>NaN\<close>. A count never exceeds the size, so \<open>0/0\<close> is the
  only division by zero that occurs.
\<close>

datatype npfloat = Fin real | NaN

definition np_div :: "nat \<Rightarrow> nat \<Rightarrow> npfloat" where
  "np_div c n = (if n = 0 then NaN else Fin (real c / real n))"

text \<open>\<open>x <= 0.0\<close> and \<open>x != 0.0\<close> on floats: every ordering comparison with nan is False,
  and nan differs from every number.\<close>

definition np_le_zero :: "npfloat \<Rightarrow> bool" where
  "np_le_zero x = (case x of Fin r \<Rightarrow> r \<le> 0 | NaN \<Rightarrow> False)"

definition np_ne_zero :: "npfloat \<Rightarrow> bool" where
  "np_ne_zero x = (case x of Fin r \<Rightarrow> r \<noteq> 0 | NaN \<Rightarrow> True)"

text \<open>
  A state (class \<open>State\<close> / \<open>StateUni\<close>): the fitted Gaussian, its relevance \<open>perc\<close> and
  the two thresholds, each a pair \<open>[value, type]\<close>. States are values here: every position
  of a state list is an object of its own, as in every list the search builds.
\<close>

type_synonym threshold = "real \<times> int"

record state =
  mean :: real
  sigma :: real
  area :: real
  peak :: real
  perc :: npfloat
  th_inf :: threshold
  th_sup :: threshold

text \<open>
  A two-dimensional array is a list of rows. Labels are natural numbers: the label matrix
  is created as zeros and every write stores the ordinal of a state. \<open>shape1\<close> is
  \<open>a.shape[1]\<close>, \<open>array_size\<close> is \<open>a.size\<close>.
\<close>

text \<open>
  The element type of a label array is kept with its values: \<open>np.zeros(shape)\<close> makes a
  \<open>float64\<close> array, \<open>np.zeros(shape, dtype=int)\<close> an integer one, and numpy accepts only an
  integer (or boolean) array as an index.
\<close>

datatype np_dtype = Float64 | Int64

type_synonym label_array = "np_dtype \<times> nat list list"

definition shape1 :: "'a list list \<Rightarrow> nat" where
  "shape1 a = (case a of [] \<Rightarrow> 0 | r # _ \<Rightarrow> length r)"

definition is_array2 :: "'a list list \<Rightarrow> bool" where
  "is_array2 a = list_all (\<lambda>r. length r = shape1 a) a"

definition array_size :: "'a list list \<Rightarrow> nat" where
  "array_size a = length (concat a)"


section \<open>Window Stability Classifier: \<open>find_stable_trj\<close>\<close>

text \<open>\<open>m_clean[i, w*tau_window:(w + 1)*tau_window]\<close> for the row \<open>m_clean[i]\<close>.\<close>

definition window :: "real list \<Rightarrow> nat \<Rightarrow> nat \<Rightarrow> real list" where
  "window row tau_window w = take tau_window (drop (w * tau_window) row)"

text \<open>One row of \<open>m_clean[:, :number_of_windows*tau_window].reshape(rows, number_of_windows,
  tau_window)\<close>.\<close>

definition reshape_row :: "nat \<Rightarrow> nat \<Rightarrow> real list \<Rightarrow> real list list" where
  "reshape_row number_of_windows tau_window row =
     map (\<lambda>w. take tau_window (drop (w * tau_window) (take (number_of_windows * tau_window) row)))
       [0..<number_of_windows]"

text \<open>\<open>mask = mask_unclassified & mask_inf & mask_sup\<close>, one entry per window.\<close>

definition stable_mask ::
  "state \<Rightarrow> real list list \<Rightarrow> nat list list \<Rightarrow> nat \<Rightarrow> nat \<Rightarrow> bool list list" where
  "stable_mask st m_clean all_the_labels number_of_windows tau_window =
     map2 (\<lambda>row labs.
            map2 (\<lambda>win lab. real lab < 1 / 2 \<and> fst (th_inf st) \<le> Min (set win)
                             \<and> Max (set win) \<le> fst (th_sup st))
              (reshape_row number_of_windows tau_window row) labs)
       m_clean all_the_labels"

text \<open>
  The function mutates \<open>all_the_labels\<close> in place and returns the remaining windows, the
  fraction of newly classified windows and the flag \<open>one_last_state\<close>; the model returns
  the new label matrix as the first component. numpy raises when the shapes of the signal
  matrix and of the label matrix do not fit (the reshape, the combination of the masks or
  the boolean index fails) and when the minimum over an empty window is asked for; the
  model reports all of them as \<open>ValueError\<close>.
\<close>

definition find_stable_trj ::
  "real list list \<Rightarrow> nat \<Rightarrow> state \<Rightarrow> nat list list \<Rightarrow> nat
     \<Rightarrow> py_error + (nat list list \<times> real list list \<times> npfloat \<times> bool)" where
  "find_stable_trj m_clean tau_window st all_the_labels offset =
     (let number_of_windows = shape1 all_the_labels in
      if length m_clean = length all_the_labels \<and> is_array2 all_the_labels
         \<and> list_all (\<lambda>row. number_of_windows * tau_window \<le> length row) m_clean
         \<and> (0 < tau_window \<or> number_of_windows = 0 \<or> m_clean = [])
      then
        let mask = stable_mask st m_clean all_the_labels number_of_windows tau_window;
            new_labels = map2 (map2 (\<lambda>b lab. if b then offset + 1 else lab)) mask all_the_labels;
            counter = length (filter id (concat mask));
            mask_remaining = map2 (map2 (\<lambda>b lab. real lab < 1 / 2 \<and> \<not> b)) mask all_the_labels;
            remaning_data = concat (map2 (\<lambda>row rem.
                map (window row tau_window) (filter (\<lambda>w. rem ! w) [0..<length rem]))
              m_clean mask_remaining);
            window_fraction = np_div counter (array_size all_the_labels);
            one_last_state = (remaning_data \<noteq> [])
        in Inr (new_labels, remaning_data, window_fraction, one_last_state)
      else Inl ValueError)"

text \<open>The condition under which the classifier marks window \<open>j\<close> of row \<open>i\<close>.\<close>

definition window_stable ::
  "real list list \<Rightarrow> nat \<Rightarrow> state \<Rightarrow> nat list list \<Rightarrow> nat \<Rightarrow> nat \<Rightarrow> bool" where
  "window_stable m_clean tau_window st all_the_labels i j =
     (all_the_labels ! i ! j = 0
      \<and> fst (th_inf st) \<le> Min (set (window (m_clean ! i) tau_window j))
      \<and> Max (set (window (m_clean ! i) tau_window j)) \<le> fst (th_sup st))"

section \<open>Gaussian Fit Engine\<close>

text \<open>
  \<open>moving_average\<close> is \<open>np.convolve(data, np.ones(window)/window, mode="valid")\<close>, row by
  row for a matrix. \<open>np.convolve\<close> raises \<open>ValueError\<close> for an empty operand and swaps its
  operands when the kernel is the longer one; \<open>np.apply_along_axis\<close> raises \<open>ValueError\<close>
  for a matrix with no rows.
\<close>

definition convolve_valid :: "real list \<Rightarrow> nat \<Rightarrow> real list" where
  "convolve_valid data w =
     (if w \<le> length data
      then map (\<lambda>k. sum_list (map (\<lambda>x. x * (1 / real w)) (take w (drop k data))))
             [0..<length data - w + 1]
      else replicate (w - length data + 1) (sum_list (map (\<lambda>x. x * (1 / real w)) data)))"


definition moving_average :: "real list list \<Rightarrow> nat \<Rightarrow> py_error + real list list" where
  "moving_average data w =
     (if data = [] \<or> shape1 data = 0 \<or> w = 0 then Inl ValueError
      else Inr (map (\<lambda>row. convolve_valid row w) data))"









text \<open>Step 8 of \<open>gauss_fit_max\<close>: the choice between the two fit attempts. Subscripting
  the \<open>None\<close> of a failed attempt would be a \<open>TypeError\<close>.\<close>

definition choose_fit ::
  "bool \<times> int \<times> (real \<times> real \<times> real) option \<Rightarrow> bool \<times> int \<times> (real \<times> real \<times> real) option
     \<Rightarrow> (int \<times> (real \<times> real \<times> real) option) option" where
  "choose_fit fit_min fit_half =
     (case (fit_min, fit_half) of
        ((flag_min, goodness_min, popt_min), (flag_half, goodness_half, popt_half)) \<Rightarrow>
          if flag_min \<and> \<not> flag_half then Some (goodness_min, popt_min)
          else if \<not> flag_min \<and> flag_half then Some (goodness_half, popt_half)
          else if flag_min \<and> flag_half
          then (if goodness_half \<le> goodness_min then Some (goodness_min, popt_min)
                else Some (goodness_half, popt_half))
          else None)"


section \<open>Iterative State Search: \<open>iterative_search\<close>\<close>

text \<open>
  Steps 1 and 2 of \<open>relabel_states\<close>: the states with a nonzero relevance, sorted by
  their mean (\<open>list.sort\<close> is stable), each with its position in \<open>states_list\<close>. The
  position is what \<open>states_list.index(state)\<close> returns: the objects are compared by
  identity and every position of the list holds an object of its own.
\<close>

definition surviving :: "state list \<Rightarrow> (nat \<times> state) list" where
  "surviving states_list =
     sort_key (\<lambda>p. mean (snd p))
       (filter (\<lambda>p. np_ne_zero (perc (snd p))) (enumerate 0 states_list))"

text \<open>
  \<open>relabel_states\<close>. The dictionary \<open>state_mapping\<close> is an association list in insertion
  order (a later value for a key already present replaces the earlier one).
  \<open>relabel_map[all_the_labels[mask]]\<close> raises \<open>IndexError\<close> for an index array that is not
  of integer type, also when it is empty, and for a label beyond the map. The label array
  is changed in place and keeps its element type.
\<close>

definition relabel_states ::
  "label_array \<Rightarrow> state list \<Rightarrow> py_error + (label_array \<times> state list)" where
  "relabel_states all_the_labels states_list =
     (let relevant_states = map snd (surviving states_list);
          state_mapping = fold (\<lambda>(index, state_index). AList.update state_index (index + 1))
            (enumerate 0 (map fst (surviving states_list))) [];
          relabel_map = fold (\<lambda>(key, val) m. m[key + 1 := val]) state_mapping
            (replicate (length states_list + 1) (0::nat))
      in if fst all_the_labels = Float64 then Inl IndexError
         else if list_all (list_all (\<lambda>l. l < length relabel_map)) (snd all_the_labels)
         then Inr ((fst all_the_labels,
                    map (map (\<lambda>l. if l \<noteq> 0 then relabel_map ! l else l)) (snd all_the_labels)),
                   relevant_states)
         else Inl IndexError)"

text \<open>
  The \<open>while True\<close> loop of \<open>iterative_search\<close>. The Gaussian fit \<open>gauss_fit_max\<close> (with its
  parameters) is the argument \<open>fit\<close>; it returns \<open>None\<close> when no fit converges. The loop
  need not end for an arbitrary \<open>fit\<close> (on an empty label matrix the fraction is nan and
  is never \<open>\<le> 0\<close>), so not returning is the value \<open>None\<close> of the outer option.
\<close>

partial_function (option) iterative_search_loop ::
  "(real list list \<Rightarrow> py_error + state option) \<Rightarrow> real list list \<Rightarrow> nat \<Rightarrow> nat list list
     \<Rightarrow> state list \<Rightarrow> real list list \<Rightarrow> nat \<Rightarrow> bool
     \<Rightarrow> (py_error + (nat list list \<times> state list \<times> bool)) option" where
  "iterative_search_loop fit m_clean tau_w all_the_labels states_list m_copy states_counter
       one_last_state =
     (case fit m_copy of
        Inl e \<Rightarrow> Some (Inl e)
      | Inr None \<Rightarrow> Some (Inr (all_the_labels, states_list, one_last_state))
      | Inr (Some st) \<Rightarrow>
          (case find_stable_trj m_clean tau_w st all_the_labels states_counter of
             Inl e \<Rightarrow> Some (Inl e)
           | Inr (new_labels, m_next, counter, one_last) \<Rightarrow>
               if np_le_zero counter
               then Some (Inr (new_labels, states_list @ [st\<lparr>perc := counter\<rparr>], one_last))
               else iterative_search_loop fit m_clean tau_w new_labels
                      (states_list @ [st\<lparr>perc := counter\<rparr>]) m_next (states_counter + 1)
                      one_last))"

text \<open>\<open>int(m_clean.shape[1] / par.tau_w)\<close> raises \<open>ZeroDivisionError\<close> for a window length
  0. The label matrix starts as \<open>np.zeros((rows, num_windows))\<close>, a \<open>float64\<close> array, and
  the list of states as empty; the result of the loop is handed to \<open>relabel_states\<close>.\<close>

definition iterative_search ::
  "(real list list \<Rightarrow> py_error + state option) \<Rightarrow> real list list \<Rightarrow> nat
     \<Rightarrow> (py_error + (label_array \<times> state list \<times> bool)) option" where
  "iterative_search fit m_clean tau_w =
     (if tau_w = 0 then Some (Inl ZeroDivisionError)
      else
        let num_windows = shape1 m_clean div tau_w;
            all_the_labels = replicate (length m_clean) (replicate num_windows (0::nat))
        in case iterative_search_loop fit m_clean tau_w all_the_labels [] m_clean 0 False of
             None \<Rightarrow> None
           | Some (Inl e) \<Rightarrow> Some (Inl e)
           | Some (Inr (labels, states_list, one_last_state)) \<Rightarrow>
               (case relabel_states (Float64, labels) states_list of
                  Inl e \<Rightarrow> Some (Inl e)
                | Inr (atl, lis) \<Rightarrow> Some (Inr (atl, lis, one_last_state))))"

section \<open>Threshold / Intersection Solver: \<open>find_intersection\<close>\<close>

text \<open>
  \<open>gaussian\<close> and \<open>find_intersection\<close> over the real numbers. The areas and sigmas of
  fitted states are positive; for a non-positive argument \<open>np.log\<close> yields nan or
  \<open>-inf\<close>, which the model does not represent.
\<close>

definition gaussian :: "real \<Rightarrow> real \<Rightarrow> real \<Rightarrow> real \<Rightarrow> real" where
  "gaussian x_points x_mean sig ar =
     exp (- (((x_points - x_mean) / sig)\<^sup>2)) * ar / (sqrt pi * sig)"

definition find_intersection :: "state \<Rightarrow> state \<Rightarrow> threshold" where
  "find_intersection st_0 st_1 =
     (let coeff_a = (sigma st_1)\<^sup>2 - (sigma st_0)\<^sup>2;
          coeff_b = - 2 * (mean st_0 * (sigma st_1)\<^sup>2 - mean st_1 * (sigma st_0)\<^sup>2);
          tmp_c = ln (area st_0 * sigma st_1 / area st_1 / sigma st_0);
          coeff_c = (mean st_0 * sigma st_1)\<^sup>2 - (mean st_1 * sigma st_0)\<^sup>2
                    - ((sigma st_0 * sigma st_1)\<^sup>2) * tmp_c;
          delta = coeff_b\<^sup>2 - 4 * coeff_a * coeff_c
      in if coeff_a = 0
         then ((mean st_0 + mean st_1) / 2
                 - (sigma st_0)\<^sup>2 / 2 / (mean st_1 - mean st_0) * ln (area st_0 / area st_1), 1)
         else if 0 \<le> delta
         then
           let th_plus = (- coeff_b + sqrt delta) / (2 * coeff_a);
               th_minus = (- coeff_b - sqrt delta) / (2 * coeff_a);
               intercept_plus = gaussian th_plus (mean st_0) (sigma st_0) (area st_0);
               intercept_minus = gaussian th_minus (mean st_0) (sigma st_0) (area st_0)
           in if intercept_minus \<le> intercept_plus then (th_plus, 1) else (th_minus, 1)
         else ((mean st_0 / sigma st_0 + mean st_1 / sigma st_1)
                 / (1 / sigma st_0 + 1 / sigma st_1), 2))"

text \<open>The density of a state at a point (used to state properties of the solver).\<close>

definition density :: "state \<Rightarrow> real \<Rightarrow> real" where
  "density st x = gaussian x (mean st) (sigma st) (area st)"

section \<open>Final thresholds: \<open>final_state_settings\<close>\<close>

text \<open>
  The relevance of every state is recomputed from the label matrix; then the thresholds
  are written: the lower one of the first state, one intersection per adjacent pair, the
  upper one of the last state. \<open>list_of_states[0]\<close> raises \<open>IndexError\<close> on an empty list.
  Writing the two report files is left out.
\<close>

definition set_threshold_pair :: "nat \<Rightarrow> state list \<Rightarrow> state list" where
  "set_threshold_pair i sts =
     (let th = find_intersection (sts ! i) (sts ! (i + 1))
      in sts[i := (sts ! i)\<lparr>th_sup := th\<rparr>, i + 1 := (sts ! (i + 1))\<lparr>th_inf := th\<rparr>])"

definition final_state_settings ::
  "state list \<Rightarrow> nat list list \<Rightarrow> real \<times> real \<Rightarrow> py_error + state list" where
  "final_state_settings list_of_states all_the_labels m_range =
     (let sts = map (\<lambda>(st_id, st).
                  st\<lparr>perc := np_div (count_list (concat all_the_labels) (st_id + 1))
                                  (array_size all_the_labels)\<rparr>)
                (enumerate 0 list_of_states)
      in if sts = [] then Inl IndexError
         else
           let sts = sts[0 := (sts ! 0)\<lparr>th_inf := (fst m_range, 0)\<rparr>];
               sts = fold set_threshold_pair [0..<length sts - 1] sts;
               sts = sts[length sts - 1 := (sts ! (length sts - 1))\<lparr>th_sup := (snd m_range, 0)\<rparr>]
           in Inr sts)"

section \<open>Overlap-Based Merger: the proposals of \<open>set_final_states\<close>\<close>









section \<open>Max-Probability Reassigner\<close>

text \<open>\<open>np.median\<close>: the middle element of the sorted window, the mean of the two middle
  ones for an even length, nan (\<open>None\<close>) for an empty window. Comparisons with nan are
  False.\<close>

definition np_median :: "real list \<Rightarrow> real option" where
  "np_median w =
     (if w = [] then None
      else let s = sort w; n = length w
           in Some (if odd n then s ! (n div 2) else (s ! (n div 2 - 1) + s ! (n div 2)) / 2))"

text \<open>\<open>xs[i]\<close> of Python for an integer \<open>i\<close>: a negative index counts from the end.\<close>

definition py_index :: "'a list \<Rightarrow> int \<Rightarrow> py_error + 'a" where
  "py_index xs i =
     (let n = int (length xs); k = (if i < 0 then n + i else i)
      in if 0 \<le> k \<and> k < n then Inr (xs ! nat k) else Inl IndexError)"

definition find_max_prob_state :: "real list \<Rightarrow> nat \<Rightarrow> state list \<Rightarrow> py_error + int" where
  "find_max_prob_state win old_label list_of_states =
     (let median_x = np_median win; new_label = int old_label
      in case py_index list_of_states (int old_label - 1) of
           Inl e \<Rightarrow> Inl e
         | Inr st \<Rightarrow>
             Inr (if (case median_x of None \<Rightarrow> False | Some x \<Rightarrow> x < fst (th_inf st))
                  then new_label - 1
                  else if (case median_x of None \<Rightarrow> False | Some x \<Rightarrow> fst (th_sup st) < x)
                  then new_label + 1
                  else new_label))"

text \<open>The first exception of a list of results, or all the values.\<close>

fun collect :: "('e + 'a) list \<Rightarrow> 'e + 'a list" where
  "collect [] = Inr []"
| "collect (x # xs) =
     (case x of
        Inl e \<Rightarrow> Inl e
      | Inr v \<Rightarrow> (case collect xs of Inl e \<Rightarrow> Inl e | Inr vs \<Rightarrow> Inr (v # vs)))"

text \<open>
  \<open>max_prob_assignment\<close>: \<open>final_labels\<close> starts as zeros and receives the new label of
  every window with a positive label; \<open>matrix[i]\<close> raises \<open>IndexError\<close> for a missing row.
  The new label is stored in an integer array; it is never negative, since the old label
  is positive.
\<close>

definition max_prob_assignment ::
  "state list \<Rightarrow> real list list \<Rightarrow> nat list list \<Rightarrow> nat
     \<Rightarrow> py_error + (nat list list \<times> state list)" where
  "max_prob_assignment list_of_states matrix all_the_labels tau_window =
     (case collect (map (\<lambda>(i, mol).
               collect (map (\<lambda>(j, old_label).
                   if 0 < old_label
                   then (if i < length matrix
                         then (case find_max_prob_state (window (matrix ! i) tau_window j)
                                      old_label list_of_states of
                                 Inl e \<Rightarrow> Inl e
                               | Inr new_label \<Rightarrow> Inr (nat new_label))
                         else Inl IndexError)
                   else Inr 0)
                 (enumerate 0 mol)))
             (enumerate 0 all_the_labels)) of
        Inl e \<Rightarrow> Inl e
      | Inr final_labels \<Rightarrow>
          Inr (final_labels,
               map (\<lambda>(i, st).
                      st\<lparr>perc := np_div (count_list (concat final_labels) (i + 1))
                                      (array_size final_labels)\<rparr>)
                 (enumerate 0 list_of_states)))"

section \<open>The analysis of one configuration: \<open>timeseries_analysis\<close>\<close>

text \<open>\<open>preparing_the_data\<close>: the smoothed matrix with its minimum and maximum.
  \<open>int(tot_time / tau_window)\<close> raises \<open>ZeroDivisionError\<close> for a window length 0.\<close>

definition preparing_the_data ::
  "real list list \<Rightarrow> nat \<Rightarrow> nat \<Rightarrow> py_error + (real list list \<times> (real \<times> real))" where
  "preparing_the_data m_raw tau_window t_smooth =
     (case moving_average m_raw t_smooth of
        Inl e \<Rightarrow> Inl e
      | Inr m_clean \<Rightarrow>
          if tau_window = 0 then Inl ZeroDivisionError
          else Inr (m_clean, (Min (set (concat m_clean)), Max (set (concat m_clean)))))"

text \<open>\<open>1 - np.sum([state.perc for state in list_of_states])\<close>; a nan makes the sum nan.\<close>

definition fraction_unclassified :: "state list \<Rightarrow> npfloat" where
  "fraction_unclassified sts =
     (if list_all (\<lambda>st. perc st \<noteq> NaN) sts
      then Fin (1 - sum_list (map (\<lambda>st. case perc st of Fin r \<Rightarrow> r | NaN \<Rightarrow> 0) sts))
      else NaN)"

text \<open>
  \<open>timeseries_analysis\<close> returns the number of states and the unclassified fraction.
  \<open>fit\<close> is \<open>gauss_fit_max\<close> with its parameters. The merging step is the parameter
  \<open>set_final_states\<close>: the caller passes three arguments, the function of the second
  source file takes four. Plotting is left out. The outer option is \<open>None\<close> when the
  search does not return.
\<close>

definition timeseries_analysis ::
  "(real list list \<Rightarrow> py_error + state option)
     \<Rightarrow> (state list \<Rightarrow> label_array \<Rightarrow> real \<times> real \<Rightarrow> py_error + (state list \<times> label_array))
     \<Rightarrow> real list list \<Rightarrow> nat \<Rightarrow> nat \<Rightarrow> (py_error + (nat \<times> npfloat)) option" where
  "timeseries_analysis fit set_final_states m_raw tau_w t_smooth =
     (case preparing_the_data m_raw tau_w t_smooth of
        Inl e \<Rightarrow> Some (Inl e)
      | Inr (m_clean, m_range) \<Rightarrow>
          (case iterative_search fit m_clean tau_w of
             None \<Rightarrow> None
           | Some (Inl e) \<Rightarrow> Some (Inl e)
           | Some (Inr (all_the_labels, list_of_states, one_last_state)) \<Rightarrow>
               if length list_of_states = 0 then Some (Inr (1, Fin 1))
               else
                 (case set_final_states list_of_states all_the_labels m_range of
                    Inl e \<Rightarrow> Some (Inl e)
                  | Inr (final_states, final_labels) \<Rightarrow>
                      if one_last_state
                      then Some (Inr (length final_states + 1, fraction_unclassified final_states))
                      else Some (Inr (length final_states, fraction_unclassified final_states)))))"

section \<open>Notions used to state the properties\<close>

text \<open>Relabelling applied twice: the second call receives the results of the first.\<close>

definition relabel_twice ::
  "label_array \<Rightarrow> state list \<Rightarrow> py_error + (label_array \<times> state list)" where
  "relabel_twice all_the_labels states_list =
     (case relabel_states all_the_labels states_list of
        Inl e \<Rightarrow> Inl e
      | Inr (labels1, states1) \<Rightarrow> relabel_states labels1 states1)"

text \<open>Two states with the same Gaussian: the same mean, sigma and area.\<close>

definition same_gaussian :: "state \<Rightarrow> state \<Rightarrow> bool" where
  "same_gaussian a b = (mean a = mean b \<and> sigma a = sigma b \<and> area a = area b)"


section \<open>Example data\<close>

text \<open>A state with the bounds \<open>[4, 6]\<close>, used in the examples.\<close>

definition ex_state :: state where
  "ex_state = \<lparr>mean = 5, sigma = 1, area = 1, peak = 1, perc = Fin 0,
                th_inf = (4, - 1), th_sup = (6, - 1)\<rparr>"


text \<open>Two states whose thresholds abut at 6, between the bounds 0 and 10 of the data.\<close>

definition ex_states :: "state list" where
  "ex_states = [ex_state\<lparr>th_inf := (0, 0), th_sup := (6, 1)\<rparr>,
                ex_state\<lparr>mean := 7, th_inf := (6, 1), th_sup := (10, 0)\<rparr>]"



section \<open>Properties of the classifier\<close>

lemma shape1_row: "is_array2 a \<Longrightarrow> i < length a \<Longrightarrow> length (a ! i) = shape1 a"
  by (simp add: is_array2_def list_all_length)

lemma reshape_row_nth:
  "j < n \<Longrightarrow> n * tau \<le> length row \<Longrightarrow> reshape_row n tau row ! j = window row tau j"
proof -
  assume j: "j < n" and len: "n * tau \<le> length row"
  have "Suc j \<le> n" using j by simp
  then have "Suc j * tau \<le> n * tau" by (rule mult_le_mono1)
  then have le: "j * tau + tau \<le> n * tau" by simp
  have "take tau (drop (j * tau) (take (n * tau) row))
        = take tau (take (n * tau - j * tau) (drop (j * tau) row))"
    by (simp add: drop_take)
  also have "\<dots> = take tau (drop (j * tau) row)"
    using le by (simp add: min_def)
  finally show ?thesis using j by (simp add: reshape_row_def window_def)
qed

lemma unclassified_iff: "(real lab < 1 / 2) = (lab = 0)"
  by (cases lab) auto

lemma unclassified_iff2: "(real lab * 2 < 1) = (lab = 0)"
  by (cases lab) auto

lemma stable_mask_nth:
  assumes "length m = length labels" "is_array2 labels"
    and "list_all (\<lambda>row. shape1 labels * tau \<le> length row) m"
    and "i < length labels" "j < shape1 labels"
  shows "stable_mask st m labels (shape1 labels) tau ! i ! j = window_stable m tau st labels i j"
proof -
  have row: "shape1 labels * tau \<le> length (m ! i)"
    using assms(1,3,4) by (simp add: list_all_length)
  have len: "length (labels ! i) = shape1 labels"
    using assms(2,4) by (rule shape1_row)
  have rlen: "length (reshape_row (shape1 labels) tau (m ! i)) = shape1 labels"
    by (simp add: reshape_row_def)
  show ?thesis
    using assms(1,4,5) len rlen reshape_row_nth [OF assms(5) row]
    by (simp add: stable_mask_def window_stable_def unclassified_iff2)
qed

lemma stable_mask_length:
  "length m = length labels \<Longrightarrow> length (stable_mask st m labels n tau) = length labels"
  by (simp add: stable_mask_def)

lemma stable_mask_row_length:
  "length m = length labels \<Longrightarrow> i < length labels \<Longrightarrow> length (labels ! i) = n
     \<Longrightarrow> length (stable_mask st m labels n tau ! i) = n"
  by (simp add: stable_mask_def reshape_row_def)

lemma find_stable_trj_label:
  assumes res: "find_stable_trj m tau st labels offset = Inr (new_labels, rest)"
    and i: "i < length labels" and j: "j < shape1 labels"
  shows "new_labels ! i ! j
         = (if window_stable m tau st labels i j then offset + 1 else labels ! i ! j)"
proof -
  have ok: "length m = length labels" "is_array2 labels"
      "list_all (\<lambda>row. shape1 labels * tau \<le> length row) m"
    using res by (auto simp: find_stable_trj_def Let_def split: if_splits)
  have new: "new_labels = map2 (map2 (\<lambda>b lab. if b then offset + 1 else lab))
      (stable_mask st m labels (shape1 labels) tau) labels"
    using res by (auto simp: find_stable_trj_def Let_def split: if_splits)
  have len: "length (labels ! i) = shape1 labels"
    using ok(2) i by (rule shape1_row)
  have mlen: "length (stable_mask st m labels (shape1 labels) tau ! i) = shape1 labels"
    using ok(1) i len by (rule stable_mask_row_length)
  show ?thesis
    using i j len mlen stable_mask_length [OF ok(1)] stable_mask_nth [OF ok i j]
    by (simp add: new)
qed

text \<open>
  Claim C1. For every window of the signal matrix the classifier marks it stable (the
  entry of the mask is set, and the label becomes \<open>offset + 1\<close>) if and only if its label
  is 0, its minimum is at least \<open>th_inf\<close> and its maximum is at most \<open>th_sup\<close>; every
  other label is left as it was. In particular a window whose minimum lies below
  \<open>th_inf\<close> or whose maximum lies above \<open>th_sup\<close> keeps its label, wherever its mean lies.
\<close>

theorem find_stable_trj_stable_iff:
  assumes "find_stable_trj m_clean tau_window st all_the_labels offset = Inr (new_labels, rest)"
    and "i < length all_the_labels" and "j < shape1 all_the_labels"
  shows "(stable_mask st m_clean all_the_labels (shape1 all_the_labels) tau_window ! i ! j
            = (all_the_labels ! i ! j = 0
               \<and> fst (th_inf st) \<le> Min (set (window (m_clean ! i) tau_window j))
               \<and> Max (set (window (m_clean ! i) tau_window j)) \<le> fst (th_sup st)))
       \<and> new_labels ! i ! j
           = (if all_the_labels ! i ! j = 0
                 \<and> fst (th_inf st) \<le> Min (set (window (m_clean ! i) tau_window j))
                 \<and> Max (set (window (m_clean ! i) tau_window j)) \<le> fst (th_sup st)
              then offset + 1 else all_the_labels ! i ! j)
       \<and> (Min (set (window (m_clean ! i) tau_window j)) < fst (th_inf st)
            \<or> fst (th_sup st) < Max (set (window (m_clean ! i) tau_window j))
          \<longrightarrow> new_labels ! i ! j = all_the_labels ! i ! j)"
proof -
  have ok: "length m_clean = length all_the_labels" "is_array2 all_the_labels"
      "list_all (\<lambda>row. shape1 all_the_labels * tau_window \<le> length row) m_clean"
    using assms(1) by (auto simp: find_stable_trj_def Let_def split: if_splits)
  have lab: "new_labels ! i ! j
      = (if window_stable m_clean tau_window st all_the_labels i j then offset + 1
         else all_the_labels ! i ! j)"
    using assms by (rule find_stable_trj_label)
  show ?thesis
    using lab stable_mask_nth [OF ok assms(2,3)] by (auto simp: window_stable_def)
qed

lemma find_stable_trj_example:
  "find_stable_trj [[0, 10, 5, 5]] 2 ex_state [[0, 0]] 0
     = Inr ([[0, 1]], [[0, 10]], Fin (1 / 2), True)"
  by (simp add: find_stable_trj_def stable_mask_def reshape_row_def window_def shape1_def
      is_array2_def array_size_def np_div_def ex_state_def Let_def upt_conv_Cons)

text \<open>The first window, \<open>[0, 10]\<close>, has its mean 5 inside the bounds \<open>[4, 6]\<close> and is not
  marked; the second, \<open>[5, 5]\<close>, is.\<close>

theorem find_stable_trj_stable_iff_witness:
  "find_stable_trj [[0, 10, 5, 5]] 2 ex_state [[0, 0]] 0
     = Inr ([[0, 1]], [[0, 10]], Fin (1 / 2), True)
   \<and> Min (set (window ([[0, 10, 5, 5]] ! 0) 2 0)) < fst (th_inf ex_state)
   \<and> sum_list (window ([[0, 10, 5, 5]] ! 0) 2 0) / 2 = mean ex_state
   \<and> \<not> stable_mask ex_state [[0, 10, 5, 5]] [[0, 0]] (shape1 [[0::nat, 0]]) 2 ! 0 ! 0
   \<and> [[0, 1]] ! 0 ! 0 = [[0, 0::nat]] ! 0 ! 0"
  using find_stable_trj_stable_iff [OF find_stable_trj_example, of 0 0]
    find_stable_trj_example
  by (simp add: shape1_def window_def ex_state_def)

text \<open>
  Claim C8. A cell whose label is already nonzero is never changed by an invocation of
  the classifier; in particular it is never reset to 0.
\<close>

theorem find_stable_trj_keeps_nonzero:
  assumes "find_stable_trj m_clean tau_window st all_the_labels offset = Inr (new_labels, rest)"
    and "i < length all_the_labels" and "j < shape1 all_the_labels"
    and "all_the_labels ! i ! j \<noteq> 0"
  shows "new_labels ! i ! j = all_the_labels ! i ! j \<and> new_labels ! i ! j \<noteq> 0"
  using find_stable_trj_label [OF assms(1,2,3)] assms(4)
  by (simp add: window_stable_def)

lemma find_stable_trj_example_classified:
  "find_stable_trj [[5, 5, 5, 5]] 2 ex_state [[2, 0]] 2
     = Inr ([[2, 3]], [], Fin (1 / 2), False)"
  by (simp add: find_stable_trj_def stable_mask_def reshape_row_def window_def shape1_def
      is_array2_def array_size_def np_div_def ex_state_def Let_def upt_conv_Cons)

theorem find_stable_trj_keeps_nonzero_witness:
  "find_stable_trj [[5, 5, 5, 5]] 2 ex_state [[2, 0]] 2
     = Inr ([[2, 3]], [], Fin (1 / 2), False)
   \<and> [[2, 0::nat]] ! 0 ! 0 \<noteq> 0
   \<and> [[2, 3]] ! 0 ! 0 = [[2, 0::nat]] ! 0 ! 0"
  using find_stable_trj_keeps_nonzero [OF find_stable_trj_example_classified, of 0 0]
    find_stable_trj_example_classified
  by (simp add: shape1_def)

section \<open>Properties of the final thresholds\<close>

lemma find_intersection_cong:
  "same_gaussian a a' \<Longrightarrow> same_gaussian b b' \<Longrightarrow> find_intersection a b = find_intersection a' b'"
proof -
  assume a: "same_gaussian a a'" and b: "same_gaussian b b'"
  have eqs: "mean a = mean a'" "sigma a = sigma a'" "area a = area a'"
      "mean b = mean b'" "sigma b = sigma b'" "area b = area b'"
    using a b by (simp_all add: same_gaussian_def)
  show ?thesis unfolding find_intersection_def eqs ..
qed

lemma set_threshold_pair_length [simp]: "length (set_threshold_pair j sts) = length sts"
  by (simp add: set_threshold_pair_def Let_def)

lemma enumerate_eq_Nil [simp]: "enumerate n xs = [] \<longleftrightarrow> xs = []"
  by (cases xs) simp_all

lemma fold_set_threshold_pair_length [simp]:
  "length (fold set_threshold_pair js sts) = length sts"
  by (induction js arbitrary: sts) simp_all

lemma set_threshold_pair_nth:
  assumes "Suc j < length sts" "i < length sts"
  shows "set_threshold_pair j sts ! i
         = (if i = Suc j then (sts ! i)\<lparr>th_inf := find_intersection (sts ! j) (sts ! Suc j)\<rparr>
            else if i = j then (sts ! i)\<lparr>th_sup := find_intersection (sts ! j) (sts ! Suc j)\<rparr>
            else sts ! i)"
  using assms by (simp add: set_threshold_pair_def Let_def nth_list_update)

lemma fold_pairs_inv:
  "j < length sts \<Longrightarrow>
     length (fold set_threshold_pair [0..<j] sts) = length sts
     \<and> (\<forall>i < length sts. same_gaussian (fold set_threshold_pair [0..<j] sts ! i) (sts ! i))
     \<and> th_inf (fold set_threshold_pair [0..<j] sts ! 0) = th_inf (sts ! 0)
     \<and> (\<forall>i < j. th_sup (fold set_threshold_pair [0..<j] sts ! i)
                   = find_intersection (sts ! i) (sts ! Suc i)
                 \<and> th_inf (fold set_threshold_pair [0..<j] sts ! Suc i)
                   = find_intersection (sts ! i) (sts ! Suc i))"
proof (induction j)
  case 0
  then show ?case by (simp add: same_gaussian_def)
next
  case (Suc j)
  let ?r = "fold set_threshold_pair [0..<j] sts"
  have ih: "length ?r = length sts"
      "\<forall>i < length sts. same_gaussian (?r ! i) (sts ! i)"
      "th_inf (?r ! 0) = th_inf (sts ! 0)"
      "\<forall>i < j. th_sup (?r ! i) = find_intersection (sts ! i) (sts ! Suc i)
                 \<and> th_inf (?r ! Suc i) = find_intersection (sts ! i) (sts ! Suc i)"
    using Suc by simp_all
  have step: "fold set_threshold_pair [0..<Suc j] sts = set_threshold_pair j ?r"
    by simp
  have sj: "Suc j < length ?r" using Suc.prems ih(1) by simp
  have th: "find_intersection (?r ! j) (?r ! Suc j) = find_intersection (sts ! j) (sts ! Suc j)"
    using ih(2) Suc.prems by (intro find_intersection_cong) auto
  have nth: "set_threshold_pair j ?r ! i
         = (if i = Suc j then (?r ! i)\<lparr>th_inf := find_intersection (sts ! j) (sts ! Suc j)\<rparr>
            else if i = j then (?r ! i)\<lparr>th_sup := find_intersection (sts ! j) (sts ! Suc j)\<rparr>
            else ?r ! i)" if "i < length sts" for i
    using set_threshold_pair_nth [OF sj, of i] that ih(1) th by simp
  have g: "\<forall>i < length sts. same_gaussian (set_threshold_pair j ?r ! i) (sts ! i)"
    using ih(2) nth by (auto simp: same_gaussian_def)
  have z: "th_inf (set_threshold_pair j ?r ! 0) = th_inf (sts ! 0)"
  proof -
    have "0 < length sts" using Suc.prems by (cases sts) simp_all
    from nth [OF this] show ?thesis using ih(3) by (simp split: if_splits)
  qed
  have p: "th_sup (set_threshold_pair j ?r ! i) = find_intersection (sts ! i) (sts ! Suc i)
           \<and> th_inf (set_threshold_pair j ?r ! Suc i) = find_intersection (sts ! i) (sts ! Suc i)"
    if "i < Suc j" for i
  proof (cases "i = j")
    case True
    then show ?thesis using nth [of j] nth [of "Suc j"] Suc.prems by simp
  next
    case False
    then have "i < j" using that by simp
    then show ?thesis using ih(4) nth [of i] nth [of "Suc i"] Suc.prems by auto
  qed
  show ?case unfolding step using ih(1) g z p by simp
qed


text \<open>The range handed to \<open>final_state_settings\<close> by the analysis is the minimum and the
  maximum of the prepared data.\<close>

lemma preparing_the_data_range:
  "preparing_the_data m_raw tau_window t_smooth = Inr (m_clean, m_range)
     \<Longrightarrow> m_range = (Min (set (concat m_clean)), Max (set (concat m_clean)))"
  by (auto simp: preparing_the_data_def split: sum.splits if_splits)

text \<open>
  Claim C3. After \<open>final_state_settings\<close>, the upper threshold of every state is the
  lower threshold of the next one, in value and in type (both are the intersection
  computed for the pair); the lower threshold of the first state is the minimum of the
  data with type 0 and the upper threshold of the last state is the maximum of the data
  with type 0.
\<close>

theorem final_state_settings_thresholds:
  assumes "final_state_settings list_of_states all_the_labels m_range = Inr sts"
  shows "length sts = length list_of_states
       \<and> (\<forall>i. Suc i < length sts \<longrightarrow>
             th_sup (sts ! i) = th_inf (sts ! Suc i)
             \<and> th_sup (sts ! i) = find_intersection (list_of_states ! i) (list_of_states ! Suc i))
       \<and> th_inf (hd sts) = (fst m_range, 0)
       \<and> th_sup (last sts) = (snd m_range, 0)"
proof -
  define n where "n = length list_of_states"
  define s0 where "s0 = map (\<lambda>(st_id, st).
                  st\<lparr>perc := np_div (count_list (concat all_the_labels) (st_id + 1))
                                  (array_size all_the_labels)\<rparr>)
                (enumerate 0 list_of_states)"
  define s1 where "s1 = s0[0 := (s0 ! 0)\<lparr>th_inf := (fst m_range, 0)\<rparr>]"
  define s2 where "s2 = fold set_threshold_pair [0..<n - 1] s1"
  have ne: "list_of_states \<noteq> []"
    using assms by (auto simp: final_state_settings_def Let_def split: if_splits)
  then have n: "0 < n" by (simp add: n_def)
  have len0: "length s0 = n" by (simp add: s0_def n_def)
  have len1: "length s1 = n" by (simp add: s1_def len0)
  have len2: "length s2 = n" by (simp add: s2_def len1)
  have "final_state_settings list_of_states all_the_labels m_range
          = Inr (s2[n - 1 := (s2 ! (n - 1))\<lparr>th_sup := (snd m_range, 0)\<rparr>])"
    using ne unfolding s2_def s1_def s0_def n_def
    by (simp add: final_state_settings_def Let_def)
  with assms [symmetric]
  have "(Inr sts :: py_error + state list)
          = Inr (s2[n - 1 := (s2 ! (n - 1))\<lparr>th_sup := (snd m_range, 0)\<rparr>])"
    by (rule trans)
  then have sts: "sts = s2[n - 1 := (s2 ! (n - 1))\<lparr>th_sup := (snd m_range, 0)\<rparr>]"
    by (simp only: sum.inject)
  have g0: "same_gaussian (s0 ! i) (list_of_states ! i)" if "i < n" for i
    using that by (simp add: s0_def n_def nth_enumerate_eq same_gaussian_def)
  have g1: "same_gaussian (s1 ! i) (list_of_states ! i)" if "i < n" for i
    using that g0 [OF that] len0
    by (cases "i = 0") (simp_all add: s1_def same_gaussian_def)
  have inf1: "th_inf (s1 ! 0) = (fst m_range, 0)"
    using n len0 by (simp add: s1_def)
  have j: "n - 1 < length s1" using n len1 by simp
  have inv: "th_inf (s2 ! 0) = th_inf (s1 ! 0)"
      "\<forall>i < n - 1. th_sup (s2 ! i) = find_intersection (s1 ! i) (s1 ! Suc i)
                     \<and> th_inf (s2 ! Suc i) = find_intersection (s1 ! i) (s1 ! Suc i)"
    using fold_pairs_inv [OF j] unfolding s2_def by blast+
  have inf2: "th_inf (s2 ! 0) = (fst m_range, 0)" using inv(1) inf1 by simp
  have pairs2: "th_sup (s2 ! i) = find_intersection (list_of_states ! i) (list_of_states ! Suc i)
                \<and> th_inf (s2 ! Suc i) = find_intersection (list_of_states ! i) (list_of_states ! Suc i)"
    if "Suc i < n" for i
  proof -
    have i: "i < n - 1" using that by simp
    have "i < n" using that by simp
    then have "find_intersection (s1 ! i) (s1 ! Suc i)
          = find_intersection (list_of_states ! i) (list_of_states ! Suc i)"
      using that by (intro find_intersection_cong g1)
    then show ?thesis using inv(2) i by simp
  qed
  have nth3: "sts ! i = (if i = n - 1 then (s2 ! i)\<lparr>th_sup := (snd m_range, 0)\<rparr> else s2 ! i)"
    if "i < n" for i
    unfolding sts using that len2 by (simp add: nth_list_update)
  have len3: "length sts = n" unfolding sts using len2 by simp
  have p3: "th_sup (sts ! i) = th_inf (sts ! Suc i)
            \<and> th_sup (sts ! i) = find_intersection (list_of_states ! i) (list_of_states ! Suc i)"
    if "Suc i < length sts" for i
  proof -
    have a: "Suc i < n" "i < n" "i \<noteq> n - 1" using that len3 by simp_all
    have x: "sts ! i = s2 ! i" using nth3 [OF a(2)] a(3) by simp
    have y: "th_inf (sts ! Suc i) = th_inf (s2 ! Suc i)" using nth3 [OF a(1)] by simp
    show ?thesis unfolding x y using pairs2 [OF a(1)] by simp
  qed
  have sne: "sts \<noteq> []" using len3 n by auto
  have "th_inf (sts ! 0) = (fst m_range, 0)"
    using nth3 [OF n] inf2 by simp
  then have h: "th_inf (hd sts) = (fst m_range, 0)"
    unfolding hd_conv_nth [OF sne] .
  have "n - 1 < n" using n by simp
  from nth3 [OF this] have "th_sup (sts ! (n - 1)) = (snd m_range, 0)" by simp
  then have l: "th_sup (last sts) = (snd m_range, 0)"
    unfolding last_conv_nth [OF sne] len3 .
  show ?thesis using len3 p3 h l unfolding n_def by blast
qed


lemma final_state_settings_example:
  "final_state_settings [ex_state, ex_state\<lparr>mean := 7\<rparr>] [[1, 2]] (0, 10)
     = Inr [ex_state\<lparr>perc := Fin (1 / 2), th_inf := (0, 0), th_sup := (6, 1)\<rparr>,
            ex_state\<lparr>mean := 7, perc := Fin (1 / 2), th_inf := (6, 1), th_sup := (10, 0)\<rparr>]"
  by (simp add: final_state_settings_def set_threshold_pair_def find_intersection_def
      array_size_def np_div_def ex_state_def Let_def enumerate_eq_zip upt_conv_Cons)

theorem final_state_settings_thresholds_witness:
  "final_state_settings [ex_state, ex_state\<lparr>mean := 7\<rparr>] [[1, 2]] (0, 10)
     = Inr [ex_state\<lparr>perc := Fin (1 / 2), th_inf := (0, 0), th_sup := (6, 1)\<rparr>,
            ex_state\<lparr>mean := 7, perc := Fin (1 / 2), th_inf := (6, 1), th_sup := (10, 0)\<rparr>]
   \<and> th_sup ([ex_state\<lparr>perc := Fin (1 / 2), th_inf := (0, 0), th_sup := (6, 1)\<rparr>,
            ex_state\<lparr>mean := 7, perc := Fin (1 / 2), th_inf := (6, 1), th_sup := (10, 0)\<rparr>] ! 0)
       = find_intersection ex_state (ex_state\<lparr>mean := 7\<rparr>)
   \<and> find_intersection ex_state (ex_state\<lparr>mean := 7\<rparr>) = (6, 1)"
  using final_state_settings_thresholds [OF final_state_settings_example]
    final_state_settings_example
  by (simp add: find_intersection_def ex_state_def)

section \<open>Properties of the reassignment\<close>

lemma collect_map_Inr:
  "(\<And>x. x \<in> set xs \<Longrightarrow> f x = Inr (g x)) \<Longrightarrow> collect (map f xs) = Inr (map g xs)"
  by (induction xs) simp_all

lemma np_median_bounds:
  assumes "np_median w = Some x" and "\<forall>y \<in> set w. lo \<le> y \<and> y \<le> hi"
  shows "lo \<le> x \<and> x \<le> hi"
proof -
  have ne: "w \<noteq> []" using assms(1) by (auto simp: np_median_def split: if_splits)
  let ?s = "sort w" let ?n = "length w"
  have n: "0 < ?n" using ne by simp
  have el: "lo \<le> ?s ! k \<and> ?s ! k \<le> hi" if "k < ?n" for k
  proof -
    have "?s ! k \<in> set ?s" using that by (intro nth_mem) simp
    then show ?thesis using assms(2) by simp
  qed
  have a: "?n div 2 < ?n" using n by simp
  have b: "?n div 2 - 1 < ?n" using a by linarith
  have x: "x = (if odd ?n then ?s ! (?n div 2) else (?s ! (?n div 2 - 1) + ?s ! (?n div 2)) / 2)"
    using assms(1) ne by (simp add: np_median_def Let_def)
  show ?thesis
  proof (cases "odd ?n")
    case True
    then show ?thesis using x el [OF a] by simp
  next
    case False
    then show ?thesis using x el [OF a] el [OF b] by simp
  qed
qed

lemma py_index_label:
  "1 \<le> l \<Longrightarrow> l \<le> length xs \<Longrightarrow> py_index xs (int l - 1) = Inr (xs ! (l - 1))"
  by (auto simp: py_index_def Let_def nat_diff_distrib')

lemma find_max_prob_state_range:
  assumes l: "1 \<le> old_label" "old_label \<le> length list_of_states"
    and w: "\<forall>y \<in> set win. fst (th_inf (hd list_of_states)) \<le> y
                            \<and> y \<le> fst (th_sup (last list_of_states))"
  shows "\<exists>new_label. find_max_prob_state win old_label list_of_states = Inr new_label
           \<and> 1 \<le> new_label \<and> new_label \<le> int (length list_of_states)"
proof -
  define st where "st = list_of_states ! (old_label - 1)"
  define dec where "dec = (case np_median win of None \<Rightarrow> False | Some x \<Rightarrow> x < fst (th_inf st))"
  define inc where "inc = (case np_median win of None \<Rightarrow> False | Some x \<Rightarrow> fst (th_sup st) < x)"
  have ne: "list_of_states \<noteq> []" using l by auto
  have idx: "py_index list_of_states (int old_label - 1) = Inr st"
    unfolding st_def using l by (rule py_index_label)
  have val: "find_max_prob_state win old_label list_of_states
      = Inr (if dec then int old_label - 1 else if inc then int old_label + 1 else int old_label)"
    unfolding find_max_prob_state_def Let_def idx dec_def inc_def by simp
  have no_dec: "\<not> dec" if "old_label = 1"
  proof (cases "np_median win")
    case None
    then show ?thesis by (simp add: dec_def)
  next
    case (Some x)
    have "st = hd list_of_states" using that ne by (simp add: st_def hd_conv_nth)
    then show ?thesis using np_median_bounds [OF Some w] Some by (simp add: dec_def)
  qed
  have no_inc: "\<not> inc" if "old_label = length list_of_states"
  proof (cases "np_median win")
    case None
    then show ?thesis by (simp add: inc_def)
  next
    case (Some x)
    have "st = last list_of_states" using that ne by (simp add: st_def last_conv_nth)
    then show ?thesis using np_median_bounds [OF Some w] Some by (simp add: inc_def)
  qed
  have lo: "1 \<le> (if dec then int old_label - 1 else if inc then int old_label + 1 else int old_label)"
    using l(1) no_dec by (cases "old_label = 1") auto
  have hi: "(if dec then int old_label - 1 else if inc then int old_label + 1 else int old_label)
              \<le> int (length list_of_states)"
    using l(2) no_inc by (cases "old_label = length list_of_states") auto
  show ?thesis using val lo hi by blast
qed

lemma set_window_subset: "set (window row tau j) \<subseteq> set row"
  unfolding window_def by (meson set_take_subset set_drop_subset subset_trans)


text \<open>
  Claim C10. When the label matrix has a row of data for each of its rows, its labels lie
  in \<open>[0, n]\<close> for the \<open>n\<close> states of the list, and no value of the data lies below the
  lower threshold of the first state or above the upper threshold of the last one, the
  reassignment returns (it raises nothing), its output label is 0 exactly where the
  input label is 0, and every output label is at most \<open>n\<close>: a classified window stays
  classified with a label in \<open>[1, n]\<close>.
\<close>

theorem max_prob_assignment_labels:
  assumes rows: "length all_the_labels \<le> length matrix"
    and range: "\<forall>mol \<in> set all_the_labels. \<forall>l \<in> set mol. l \<le> length list_of_states"
    and bounds: "\<forall>row \<in> set matrix. \<forall>x \<in> set row.
        fst (th_inf (hd list_of_states)) \<le> x \<and> x \<le> fst (th_sup (last list_of_states))"
  shows "\<exists>final_labels sts.
      max_prob_assignment list_of_states matrix all_the_labels tau_window = Inr (final_labels, sts)
      \<and> length final_labels = length all_the_labels
      \<and> (\<forall>i < length all_the_labels.
            length (final_labels ! i) = length (all_the_labels ! i)
            \<and> (\<forall>j < length (all_the_labels ! i).
                  (final_labels ! i ! j = 0 \<longleftrightarrow> all_the_labels ! i ! j = 0)
                  \<and> final_labels ! i ! j \<le> length list_of_states))"
proof -
  define cell where "cell i j l =
      (if 0 < l
       then (case find_max_prob_state (window (matrix ! i) tau_window j) l list_of_states of
               Inl e \<Rightarrow> 0 | Inr new_label \<Rightarrow> nat new_label)
       else 0)" for i j l
  define final where "final = map (\<lambda>(i, mol). map (\<lambda>(j, l). cell i j l) (enumerate 0 mol))
      (enumerate 0 all_the_labels)"
  have cell_ok: "\<exists>new_label.
        find_max_prob_state (window (matrix ! i) tau_window j) l list_of_states = Inr new_label
        \<and> 1 \<le> new_label \<and> new_label \<le> int (length list_of_states)"
    if "i < length all_the_labels" "0 < l" "l \<le> length list_of_states" for i j l
  proof (rule find_max_prob_state_range)
    show "1 \<le> l" using that(2) by simp
    show "l \<le> length list_of_states" by (rule that(3))
    have "matrix ! i \<in> set matrix" using that(1) rows by simp
    then show "\<forall>y \<in> set (window (matrix ! i) tau_window j).
        fst (th_inf (hd list_of_states)) \<le> y \<and> y \<le> fst (th_sup (last list_of_states))"
      using bounds set_window_subset [of "matrix ! i" tau_window j] by blast
  qed
  have cell_val: "(cell i j l = 0 \<longleftrightarrow> l = 0) \<and> cell i j l \<le> length list_of_states"
    if "i < length all_the_labels" "l \<le> length list_of_states" for i j l
  proof (cases "0 < l")
    case True
    from cell_ok [OF that(1) True that(2)] obtain new_label where
      "find_max_prob_state (window (matrix ! i) tau_window j) l list_of_states = Inr new_label"
      "1 \<le> new_label" "new_label \<le> int (length list_of_states)" by blast
    then show ?thesis using True by (simp add: cell_def)
  next
    case False
    then show ?thesis by (simp add: cell_def)
  qed
  have inner: "collect (map (\<lambda>(j, old_label).
                   if 0 < old_label
                   then (if i < length matrix
                         then (case find_max_prob_state (window (matrix ! i) tau_window j)
                                      old_label list_of_states of
                                 Inl e \<Rightarrow> Inl e
                               | Inr new_label \<Rightarrow> Inr (nat new_label))
                         else Inl IndexError)
                   else Inr 0)
                 (enumerate 0 mol)) = Inr (map (\<lambda>(j, l). cell i j l) (enumerate 0 mol))"
    if "(i, mol) \<in> set (enumerate 0 all_the_labels)" for i mol
  proof (rule collect_map_Inr)
    fix x assume x: "x \<in> set (enumerate 0 mol)"
    obtain j l where jl: "x = (j, l)" by (cases x)
    have i: "i < length all_the_labels" and mol: "mol \<in> set all_the_labels"
      using that by (auto simp: in_set_enumerate_eq)
    have "l \<in> set mol" using x jl by (auto simp: in_set_enumerate_eq)
    then have l: "l \<le> length list_of_states" using range mol by blast
    have im: "i < length matrix" using i rows by simp
    show "(case x of (j, old_label) \<Rightarrow>
                   if 0 < old_label
                   then (if i < length matrix
                         then (case find_max_prob_state (window (matrix ! i) tau_window j)
                                      old_label list_of_states of
                                 Inl e \<Rightarrow> Inl e
                               | Inr new_label \<Rightarrow> Inr (nat new_label))
                         else Inl IndexError)
                   else Inr 0) = Inr (case x of (j, l) \<Rightarrow> cell i j l)"
    proof (cases "0 < l")
      case True
      from cell_ok [OF i True l] obtain new_label where
        "find_max_prob_state (window (matrix ! i) tau_window j) l list_of_states = Inr new_label"
        by blast
      then show ?thesis using True im jl by (simp add: cell_def)
    next
      case False
      then show ?thesis using jl by (simp add: cell_def)
    qed
  qed
  have outer: "collect (map (\<lambda>(i, mol).
               collect (map (\<lambda>(j, old_label).
                   if 0 < old_label
                   then (if i < length matrix
                         then (case find_max_prob_state (window (matrix ! i) tau_window j)
                                      old_label list_of_states of
                                 Inl e \<Rightarrow> Inl e
                               | Inr new_label \<Rightarrow> Inr (nat new_label))
                         else Inl IndexError)
                   else Inr 0)
                 (enumerate 0 mol)))
             (enumerate 0 all_the_labels)) = Inr final"
    unfolding final_def
  proof (rule collect_map_Inr)
    fix x assume x: "x \<in> set (enumerate 0 all_the_labels)"
    obtain i mol where im: "x = (i, mol)" by (cases x)
    show "(case x of (i, mol) \<Rightarrow>
               collect (map (\<lambda>(j, old_label).
                   if 0 < old_label
                   then (if i < length matrix
                         then (case find_max_prob_state (window (matrix ! i) tau_window j)
                                      old_label list_of_states of
                                 Inl e \<Rightarrow> Inl e
                               | Inr new_label \<Rightarrow> Inr (nat new_label))
                         else Inl IndexError)
                   else Inr 0)
                 (enumerate 0 mol)))
          = Inr (case x of (i, mol) \<Rightarrow> map (\<lambda>(j, l). cell i j l) (enumerate 0 mol))"
      using inner [of i mol] x im by simp
  qed
  have res: "max_prob_assignment list_of_states matrix all_the_labels tau_window
      = Inr (final, map (\<lambda>(i, st).
                      st\<lparr>perc := np_div (count_list (concat final) (i + 1))
                                      (array_size final)\<rparr>)
                 (enumerate 0 list_of_states))"
    unfolding max_prob_assignment_def outer by simp
  have len: "length final = length all_the_labels" by (simp add: final_def)
  have row: "final ! i = map (\<lambda>(j, l). cell i j l) (enumerate 0 (all_the_labels ! i))"
    if "i < length all_the_labels" for i
    using that by (simp add: final_def nth_enumerate_eq)
  have cells: "length (final ! i) = length (all_the_labels ! i)
            \<and> (\<forall>j < length (all_the_labels ! i).
                  (final ! i ! j = 0 \<longleftrightarrow> all_the_labels ! i ! j = 0)
                  \<and> final ! i ! j \<le> length list_of_states)"
    if i: "i < length all_the_labels" for i
  proof -
    have "(final ! i ! j = 0 \<longleftrightarrow> all_the_labels ! i ! j = 0)
                  \<and> final ! i ! j \<le> length list_of_states"
      if j: "j < length (all_the_labels ! i)" for j
    proof -
      have "all_the_labels ! i \<in> set all_the_labels" using i by simp
      moreover have "all_the_labels ! i ! j \<in> set (all_the_labels ! i)" using j by simp
      ultimately have "all_the_labels ! i ! j \<le> length list_of_states" using range by blast
      from cell_val [OF i this, of j] show ?thesis
        using j by (simp add: row [OF i] nth_enumerate_eq)
    qed
    then show ?thesis by (simp add: row [OF i])
  qed
  show ?thesis using res len cells by blast
qed


lemma max_prob_assignment_example:
  "max_prob_assignment ex_states [[1, 7, 8, 2]] [[2, 0]] 2
     = Inr ([[1, 0]],
            [ex_state\<lparr>perc := Fin (1 / 2), th_inf := (0, 0), th_sup := (6, 1)\<rparr>,
             ex_state\<lparr>mean := 7, perc := Fin 0, th_inf := (6, 1), th_sup := (10, 0)\<rparr>])"
  by (simp add: max_prob_assignment_def find_max_prob_state_def py_index_def np_median_def
      window_def array_size_def np_div_def ex_states_def ex_state_def Let_def enumerate_eq_zip
      upt_conv_Cons)

theorem max_prob_assignment_labels_witness:
  "length [[2, 0::nat]] \<le> length [[1, 7, 8, 2::real]]
   \<and> list_all (list_all (\<lambda>l. l \<le> length ex_states)) [[2, 0]]
   \<and> list_all (list_all (\<lambda>x. fst (th_inf (hd ex_states)) \<le> x \<and> x \<le> fst (th_sup (last ex_states))))
        [[1, 7, 8, 2]]
   \<and> max_prob_assignment ex_states [[1, 7, 8, 2]] [[2, 0]] 2
     = Inr ([[1, 0]],
            [ex_state\<lparr>perc := Fin (1 / 2), th_inf := (0, 0), th_sup := (6, 1)\<rparr>,
             ex_state\<lparr>mean := 7, perc := Fin 0, th_inf := (6, 1), th_sup := (10, 0)\<rparr>])"
proof -
  have h1: "length [[2, 0::nat]] \<le> length [[1, 7, 8, 2::real]]" by simp
  have h2: "\<forall>mol \<in> set [[2, 0]]. \<forall>l \<in> set mol. l \<le> length ex_states"
    by (simp add: ex_states_def)
  have h3: "\<forall>row \<in> set [[1, 7, 8, 2]]. \<forall>x \<in> set row.
        fst (th_inf (hd ex_states)) \<le> x \<and> x \<le> fst (th_sup (last ex_states))"
    by (simp add: ex_states_def)
  show ?thesis
    using max_prob_assignment_labels [OF h1 h2 h3, of 2] h2 h3
    unfolding max_prob_assignment_example by (simp add: list_all_iff)
qed

section \<open>Properties of the intersection solver\<close>

text \<open>Two Gaussians with positive sigmas and areas cross exactly at the roots of the
  quadratic of \<open>find_intersection\<close> (a linear equation when the sigmas are equal).\<close>

lemma gaussian_pos: "0 < s \<Longrightarrow> 0 < a \<Longrightarrow> 0 < gaussian x m s a"
  by (simp add: gaussian_def)

lemma ln_gaussian:
  assumes "0 < s" "0 < a"
  shows "ln (gaussian x m s a) = - (((x - m) / s)\<^sup>2) + ln a - ln (sqrt pi) - ln s"
proof -
  have "ln (gaussian x m s a) = ln (exp (- (((x - m) / s)\<^sup>2)) * a) - ln (sqrt pi * s)"
    unfolding gaussian_def using assms by (intro ln_divide_pos) simp_all
  also have "ln (exp (- (((x - m) / s)\<^sup>2)) * a) = - (((x - m) / s)\<^sup>2) + ln a"
    using assms by (simp add: ln_mult_pos)
  also have "ln (sqrt pi * s) = ln (sqrt pi) + ln s"
    using assms by (simp add: ln_mult_pos)
  finally show ?thesis by simp
qed

lemma crossing_iff_quadratic:
  assumes "0 < s0" "0 < s1" "0 < a0" "0 < a1"
  shows "gaussian x m0 s0 a0 = gaussian x m1 s1 a1
     \<longleftrightarrow> (s1\<^sup>2 - s0\<^sup>2) * x\<^sup>2 + (- 2 * (m0 * s1\<^sup>2 - m1 * s0\<^sup>2)) * x
           + ((m0 * s1)\<^sup>2 - (m1 * s0)\<^sup>2 - ((s0 * s1)\<^sup>2) * ln (a0 * s1 / a1 / s0)) = 0"
proof -
  define L where "L = ln a0 + ln s1 - ln a1 - ln s0"
  have lnq: "ln (a0 * s1 / a1 / s0) = L"
    using assms by (simp add: L_def ln_divide_pos ln_mult_pos)
  have "gaussian x m0 s0 a0 = gaussian x m1 s1 a1
      \<longleftrightarrow> ln (gaussian x m0 s0 a0) = ln (gaussian x m1 s1 a1)"
    using gaussian_pos [OF assms(1,3)] gaussian_pos [OF assms(2,4)] by simp
  also have "\<dots> \<longleftrightarrow> - (((x - m0) / s0)\<^sup>2) + (((x - m1) / s1)\<^sup>2) + L = 0"
    unfolding ln_gaussian [OF assms(1,3)] ln_gaussian [OF assms(2,4)] L_def by auto
  also have "\<dots> \<longleftrightarrow> - (s0\<^sup>2 * s1\<^sup>2) * (- (((x - m0) / s0)\<^sup>2) + (((x - m1) / s1)\<^sup>2) + L) = 0"
    using assms by simp
  also have "- (s0\<^sup>2 * s1\<^sup>2) * (- (((x - m0) / s0)\<^sup>2) + (((x - m1) / s1)\<^sup>2) + L)
      = (s1\<^sup>2 - s0\<^sup>2) * x\<^sup>2 + (- 2 * (m0 * s1\<^sup>2 - m1 * s0\<^sup>2)) * x
           + ((m0 * s1)\<^sup>2 - (m1 * s0)\<^sup>2 - ((s0 * s1)\<^sup>2) * L)"
    using assms by (simp add: field_simps power2_eq_square)
  finally show ?thesis unfolding lnq .
qed


lemma quadratic_root:
  fixes a b c :: real
  assumes "a \<noteq> 0" "0 \<le> b\<^sup>2 - 4 * a * c"
    and "x = (- b + sqrt (b\<^sup>2 - 4 * a * c)) / (2 * a) \<or> x = (- b - sqrt (b\<^sup>2 - 4 * a * c)) / (2 * a)"
  shows "a * x\<^sup>2 + b * x + c = 0"
proof -
  define r where "r = sqrt (b\<^sup>2 - 4 * a * c)"
  have r: "r\<^sup>2 = b\<^sup>2 - 4 * a * c" using assms(2) by (simp add: r_def)
  have x: "x = (- b + r) / (2 * a) \<or> x = (- b - r) / (2 * a)"
    using assms(3) by (simp add: r_def)
  have "4 * a * (a * x\<^sup>2 + b * x + c) = (2 * a * x + b)\<^sup>2 - (b\<^sup>2 - 4 * a * c)"
    by (simp add: power2_eq_square algebra_simps)
  also have "(2 * a * x + b)\<^sup>2 = r\<^sup>2"
  proof -
    have "2 * a * x + b = r \<or> 2 * a * x + b = - r"
      using x assms(1) by (auto simp: field_simps)
    then show ?thesis by auto
  qed
  finally have "4 * a * (a * x\<^sup>2 + b * x + c) = 0" using r by simp
  then show ?thesis using assms(1) by simp
qed

text \<open>With different sigmas and a non-negative discriminant the solver returns a point
  where the two densities cross, with type 1 (of the two roots, the one where the density
  is not lower); with a negative discriminant it returns the average of the means
  weighted with the inverse sigmas, with type 2.\<close>

lemma find_intersection_roots_cross:
  assumes pos: "0 < sigma st_0" "0 < sigma st_1" "0 < area st_0" "0 < area st_1"
    and ne: "(sigma st_1)\<^sup>2 - (sigma st_0)\<^sup>2 \<noteq> 0"
    and delta: "0 \<le> (- 2 * (mean st_0 * (sigma st_1)\<^sup>2 - mean st_1 * (sigma st_0)\<^sup>2))\<^sup>2
          - 4 * ((sigma st_1)\<^sup>2 - (sigma st_0)\<^sup>2)
            * ((mean st_0 * sigma st_1)\<^sup>2 - (mean st_1 * sigma st_0)\<^sup>2
                - ((sigma st_0 * sigma st_1)\<^sup>2)
                  * ln (area st_0 * sigma st_1 / area st_1 / sigma st_0))"
  shows "snd (find_intersection st_0 st_1) = 1
       \<and> density st_0 (fst (find_intersection st_0 st_1))
           = density st_1 (fst (find_intersection st_0 st_1))"
proof -
  define a where "a = (sigma st_1)\<^sup>2 - (sigma st_0)\<^sup>2"
  define b where "b = - 2 * (mean st_0 * (sigma st_1)\<^sup>2 - mean st_1 * (sigma st_0)\<^sup>2)"
  define c where "c = (mean st_0 * sigma st_1)\<^sup>2 - (mean st_1 * sigma st_0)\<^sup>2
                - ((sigma st_0 * sigma st_1)\<^sup>2)
                  * ln (area st_0 * sigma st_1 / area st_1 / sigma st_0)"
  define th where "th = fst (find_intersection st_0 st_1)"
  have a0: "a \<noteq> 0" using ne by (simp add: a_def)
  have d: "0 \<le> b\<^sup>2 - 4 * a * c" using delta by (simp add: a_def b_def c_def)
  have "th = (- b + sqrt (b\<^sup>2 - 4 * a * c)) / (2 * a)
      \<or> th = (- b - sqrt (b\<^sup>2 - 4 * a * c)) / (2 * a)"
    using a0 d unfolding th_def find_intersection_def Let_def a_def b_def c_def by auto
  with a0 d have "a * th\<^sup>2 + b * th + c = 0" by (rule quadratic_root)
  then have "density st_0 th = density st_1 th"
    unfolding density_def crossing_iff_quadratic [OF pos(1,2,3,4)] a_def b_def c_def .
  moreover have "snd (find_intersection st_0 st_1) = 1"
    using a0 d unfolding find_intersection_def Let_def a_def b_def c_def by auto
  ultimately show ?thesis by (simp add: th_def)
qed

lemma find_intersection_no_root:
  assumes "(sigma st_1)\<^sup>2 - (sigma st_0)\<^sup>2 \<noteq> 0"
    and "(- 2 * (mean st_0 * (sigma st_1)\<^sup>2 - mean st_1 * (sigma st_0)\<^sup>2))\<^sup>2
          - 4 * ((sigma st_1)\<^sup>2 - (sigma st_0)\<^sup>2)
            * ((mean st_0 * sigma st_1)\<^sup>2 - (mean st_1 * sigma st_0)\<^sup>2
                - ((sigma st_0 * sigma st_1)\<^sup>2)
                  * ln (area st_0 * sigma st_1 / area st_1 / sigma st_0)) < 0"
  shows "find_intersection st_0 st_1
         = ((mean st_0 / sigma st_0 + mean st_1 / sigma st_1) / (1 / sigma st_0 + 1 / sigma st_1), 2)"
  using assms unfolding find_intersection_def Let_def by auto

text \<open>With equal sigmas the solver returns the value below with type 1. The two
  densities cross at \<open>(mean0 + mean1)/2 + sigma\<^sup>2/2/(mean1 - mean0) * ln (area0/area1)\<close>:
  the sign of the logarithmic term is the opposite one, and the returned value is not a
  crossing unless the areas are equal.\<close>

lemma find_intersection_equal_sigma:
  assumes "sigma st_0 = sigma st_1"
  shows "find_intersection st_0 st_1
         = ((mean st_0 + mean st_1) / 2
             - (sigma st_0)\<^sup>2 / 2 / (mean st_1 - mean st_0) * ln (area st_0 / area st_1), 1)"
  using assms unfolding find_intersection_def Let_def by simp

lemma find_intersection_equal_sigma_not_crossing:
  assumes eq: "sigma st_0 = sigma st_1" and pos: "0 < sigma st_0" "0 < area st_0" "0 < area st_1"
    and ne: "area st_0 \<noteq> area st_1" "mean st_0 \<noteq> mean st_1"
  shows "density st_0 (fst (find_intersection st_0 st_1))
         \<noteq> density st_1 (fst (find_intersection st_0 st_1))"
proof
  define s where "s = sigma st_0"
  define L where "L = ln (area st_0 / area st_1)"
  define th where "th = (mean st_0 + mean st_1) / 2 - s\<^sup>2 / 2 / (mean st_1 - mean st_0) * L"
  have s1: "sigma st_1 = s" using eq by (simp add: s_def)
  have s: "0 < s" using pos(1) by (simp add: s_def)
  have th: "fst (find_intersection st_0 st_1) = th"
    using find_intersection_equal_sigma [OF eq] by (simp add: th_def s_def L_def)
  have L: "L \<noteq> 0"
  proof
    assume "L = 0"
    then have "ln (area st_0 / area st_1) = ln 1" by (simp add: L_def)
    then have "area st_0 / area st_1 = 1" using pos by (subst (asm) ln_inj_iff) simp_all
    then show False using ne(1) pos by simp
  qed
  have lnq: "ln (area st_0 * s / area st_1 / s) = L" using s by (simp add: L_def)
  assume "density st_0 (fst (find_intersection st_0 st_1))
         = density st_1 (fst (find_intersection st_0 st_1))"
  then have "gaussian th (mean st_0) s (area st_0) = gaussian th (mean st_1) s (area st_1)"
    unfolding th density_def s1 s_def [symmetric] .
  then have "(s\<^sup>2 - s\<^sup>2) * th\<^sup>2 + (- 2 * (mean st_0 * s\<^sup>2 - mean st_1 * s\<^sup>2)) * th
           + ((mean st_0 * s)\<^sup>2 - (mean st_1 * s)\<^sup>2 - ((s * s)\<^sup>2) * L) = 0"
    unfolding crossing_iff_quadratic [OF s s pos(2,3)] lnq .
  then have "s\<^sup>2 * (2 * (mean st_1 - mean st_0) * th - (mean st_1 - mean st_0) * (mean st_1 + mean st_0)
               - s\<^sup>2 * L) = 0"
    by (simp add: algebra_simps power2_eq_square)
  then have q: "2 * (mean st_1 - mean st_0) * th - (mean st_1 - mean st_0) * (mean st_1 + mean st_0)
               - s\<^sup>2 * L = 0"
    using s by simp
  have "2 * (mean st_1 - mean st_0) * th
      = (mean st_1 - mean st_0) * (mean st_0 + mean st_1) - s\<^sup>2 * L"
    using ne(2) unfolding th_def by (simp add: field_simps)
  moreover have "(mean st_1 - mean st_0) * (mean st_1 + mean st_0)
      = (mean st_1 - mean st_0) * (mean st_0 + mean st_1)"
    by (simp add: add.commute)
  ultimately have "s\<^sup>2 * L = 0" using q by linarith
  then show False using s L by simp
qed


text \<open>
  Claim C4, at the states \<open>(mean 5, sigma 1, area 2)\<close> and \<open>(mean 7, sigma 1, area 1)\<close>:
  the solver returns \<open>6 - ln 2 / 4\<close> with type 1; the densities differ there, and they
  are equal at \<open>6 + ln 2 / 4\<close>.
\<close>

theorem find_intersection_equal_sigma_failing:
  "find_intersection (ex_state\<lparr>area := 2\<rparr>) (ex_state\<lparr>mean := 7\<rparr>) = (6 - ln 2 / 4, 1)
   \<and> density (ex_state\<lparr>area := 2\<rparr>) (6 - ln 2 / 4) \<noteq> density (ex_state\<lparr>mean := 7\<rparr>) (6 - ln 2 / 4)
   \<and> density (ex_state\<lparr>area := 2\<rparr>) (6 + ln 2 / 4) = density (ex_state\<lparr>mean := 7\<rparr>) (6 + ln 2 / 4)"
proof -
  have v: "find_intersection (ex_state\<lparr>area := 2\<rparr>) (ex_state\<lparr>mean := 7\<rparr>) = (6 - ln 2 / 4, 1)"
    by (subst find_intersection_equal_sigma) (simp_all add: ex_state_def)
  have "density (ex_state\<lparr>area := 2\<rparr>) (fst (find_intersection (ex_state\<lparr>area := 2\<rparr>) (ex_state\<lparr>mean := 7\<rparr>)))
      \<noteq> density (ex_state\<lparr>mean := 7\<rparr>) (fst (find_intersection (ex_state\<lparr>area := 2\<rparr>) (ex_state\<lparr>mean := 7\<rparr>)))"
    by (rule find_intersection_equal_sigma_not_crossing) (simp_all add: ex_state_def)
  then have n: "density (ex_state\<lparr>area := 2\<rparr>) (6 - ln 2 / 4)
      \<noteq> density (ex_state\<lparr>mean := 7\<rparr>) (6 - ln 2 / 4)"
    unfolding v by simp
  have "gaussian (6 + ln 2 / 4) 5 1 2 = gaussian (6 + ln 2 / 4) 7 1 1"
    by (subst crossing_iff_quadratic) (simp_all add: field_simps)
  then have c: "density (ex_state\<lparr>area := 2\<rparr>) (6 + ln 2 / 4)
      = density (ex_state\<lparr>mean := 7\<rparr>) (6 + ln 2 / 4)"
    by (simp add: density_def ex_state_def)
  show ?thesis using v n c by blast
qed

section \<open>Properties of the relabelling\<close>

lemma surviving_relevant: "p \<in> set (surviving sts) \<Longrightarrow> np_ne_zero (perc (snd p))"
  by (simp add: surviving_def)

lemma surviving_sorted: "sorted (map mean (map snd (surviving sts)))"
proof -
  have "sorted (map (\<lambda>p. mean (snd p)) (surviving sts))"
    unfolding surviving_def by (rule sorted_sort_key)
  then show ?thesis by (simp add: comp_def)
qed

lemma surviving_length: "length (surviving sts) \<le> length sts"
proof -
  have "length (surviving sts)
      = length (filter (\<lambda>p. np_ne_zero (perc (snd p))) (enumerate 0 sts))"
    by (simp add: surviving_def)
  also have "\<dots> \<le> length (enumerate 0 sts)" by (rule length_filter_le)
  finally show ?thesis by simp
qed

text \<open>The surviving states of a relabelled list are all its states, in their order.\<close>

lemma surviving_all:
  assumes "\<forall>s \<in> set rs. np_ne_zero (perc s)" and "sorted (map mean rs)"
  shows "surviving rs = enumerate 0 rs"
proof -
  have keep: "filter (\<lambda>p. np_ne_zero (perc (snd p))) (enumerate 0 rs) = enumerate 0 rs"
  proof (rule filter_True)
    show "\<forall>p \<in> set (enumerate 0 rs). np_ne_zero (perc (snd p))"
    proof
      fix p assume "p \<in> set (enumerate 0 rs)"
      then have "fst p < length rs" "snd p = rs ! fst p"
        by (auto simp: in_set_enumerate_eq)
      then have "snd p \<in> set rs" using nth_mem [of "fst p" rs] by simp
      then show "np_ne_zero (perc (snd p))" using assms(1) by simp
    qed
  qed
  have "map (\<lambda>p. mean (snd p)) (enumerate 0 rs) = map mean rs"
    by (simp add: list_eq_iff_nth_eq nth_enumerate_eq)
  then have "sorted (map (\<lambda>p. mean (snd p)) (enumerate 0 rs))"
    using assms(2) by simp
  then have "sort_key (\<lambda>p. mean (snd p)) (enumerate 0 rs) = enumerate 0 rs"
    by (rule sort_key_id_if_sorted)
  then show ?thesis unfolding surviving_def keep .
qed

lemma surviving_idem:
  "surviving (map snd (surviving sts)) = enumerate 0 (map snd (surviving sts))"
proof (rule surviving_all)
  show "\<forall>s \<in> set (map snd (surviving sts)). np_ne_zero (perc s)"
    using surviving_relevant by auto
  show "sorted (map mean (map snd (surviving sts)))"
    by (rule surviving_sorted)
qed

lemma update_fresh: "k \<notin> fst ` set al \<Longrightarrow> AList.update k v al = al @ [(k, v)]"
  by (induction al) auto

lemma state_mapping_upt:
  "fold (\<lambda>(index, state_index). AList.update state_index (index + 1)) (enumerate 0 [0..<k]) []
     = map (\<lambda>i. (i, i + 1)) [0..<k]"
proof (induction k)
  case 0
  then show ?case by simp
next
  case (Suc k)
  have "enumerate 0 [0..<Suc k] = enumerate 0 [0..<k] @ [(k, k)]"
    by (simp add: enumerate_append_eq)
  then show ?case using Suc by (simp add: update_fresh image_iff)
qed

lemma relabel_map_upt:
  "j \<le> k \<Longrightarrow> fold (\<lambda>(key, val) m. m[key + 1 := val]) (map (\<lambda>i. (i, i + 1)) [0..<j])
       (replicate (k + 1) (0::nat)) = [0..<j + 1] @ replicate (k - j) 0"
proof (induction j)
  case 0
  then show ?case by (simp add: replicate_Suc [symmetric] del: replicate_Suc)
next
  case (Suc j)
  obtain d where d: "k - j = Suc d" "k - Suc j = d"
    using Suc.prems by (cases "k - j") auto
  have ih: "fold (\<lambda>(key, val) m. m[key + 1 := val]) (map (\<lambda>i. (i, i + 1)) [0..<j])
       (replicate (k + 1) (0::nat)) = [0..<j + 1] @ 0 # replicate d 0"
    using Suc d by simp
  have "([0..<j + 1] @ 0 # replicate d 0)[j + 1 := j + 1] = [0..<j + 1] @ (j + 1) # replicate d 0"
    by (simp add: list_update_append del: upt_Suc)
  also have "\<dots> = [0..<Suc j + 1] @ replicate d 0"
    by simp
  finally have upd: "([0..<j + 1] @ 0 # replicate d 0)[j + 1 := j + 1]
      = [0..<Suc j + 1] @ replicate d 0" .
  have "fold (\<lambda>(key, val) m. m[key + 1 := val]) (map (\<lambda>i. (i, i + 1)) [0..<Suc j])
       (replicate (k + 1) (0::nat))
      = (fold (\<lambda>(key, val) m. m[key + 1 := val]) (map (\<lambda>i. (i, i + 1)) [0..<j])
       (replicate (k + 1) (0::nat)))[j + 1 := j + 1]"
    by simp
  then show ?case unfolding ih upd d by simp
qed

lemma set_update_subset: "set (AList.update k v al) \<subseteq> insert (k, v) (set al)"
  by (induction al) auto

lemma state_mapping_values:
  "\<forall>p \<in> set xs. fst p < (k::nat) \<Longrightarrow> \<forall>p \<in> set al. snd p \<le> k
     \<Longrightarrow> \<forall>p \<in> set (fold (\<lambda>(index, state_index). AList.update state_index (index + 1)) xs al).
           snd p \<le> k"
proof (induction xs arbitrary: al)
  case Nil
  then show ?case by simp
next
  case (Cons x xs)
  obtain i s where x: "x = (i, s)" by (cases x)
  have "i < k" using Cons.prems(1) x by simp
  then have "\<forall>p \<in> insert (s, i + 1) (set al). snd p \<le> k"
    using Cons.prems(2) by auto
  then have "\<forall>p \<in> set (AList.update s (i + 1) al). snd p \<le> k"
    using set_update_subset [of s "i + 1" al] by blast
  then show ?case using Cons x by simp
qed

lemma relabel_map_values:
  "\<forall>p \<in> set kvs. snd p \<le> (k::nat) \<Longrightarrow> list_all (\<lambda>v. v \<le> k) m
     \<Longrightarrow> list_all (\<lambda>v. v \<le> k) (fold (\<lambda>(key, val) m. m[key + 1 := val]) kvs m)"
proof (induction kvs arbitrary: m)
  case Nil
  then show ?case by simp
next
  case (Cons x kvs)
  obtain a b where x: "x = (a, b)" by (cases x)
  have "\<forall>v \<in> insert b (set m). v \<le> k"
    using Cons.prems x by (simp add: list_all_iff)
  then have "list_all (\<lambda>v. v \<le> k) (m[a + 1 := b])"
    using set_update_subset_insert [of m "a + 1" b] unfolding list_all_iff by blast
  then show ?case using Cons x by simp
qed

text \<open>The list of states \<open>relabel_states\<close> returns is the list of the surviving states.\<close>

lemma relabel_states_states:
  "relabel_states labels sts = Inr (atl, lis) \<Longrightarrow> lis = map snd (surviving sts)"
  by (auto simp: relabel_states_def Let_def split: if_splits)

text \<open>On an integer label array whose labels are positions of the map, relabelling
  returns.\<close>

lemma relabel_states_returns:
  assumes "list_all (list_all (\<lambda>l. l \<le> length sts)) labels"
  shows "\<exists>labels1. relabel_states (Int64, labels) sts = Inr ((Int64, labels1), map snd (surviving sts))"
proof -
  have "length (fold (\<lambda>(key, val) m. m[key + 1 := val]) kvs m) = length m" for kvs and m :: "nat list"
    by (induction kvs arbitrary: m) auto
  then show ?thesis
    using assms by (simp add: relabel_states_def Let_def less_Suc_eq_le)
qed

lemma relabel_states_idem:
  assumes r: "relabel_states all_the_labels states_list = Inr (labels1, states1)"
  shows "relabel_states labels1 states1 = Inr (labels1, states1)"
proof -
  let ?k = "length states1"
  let ?map = "fold (\<lambda>(key, val) m. m[key + 1 := val])
      (fold (\<lambda>(index, state_index). AList.update state_index (index + 1))
        (enumerate 0 (map fst (surviving states_list))) [])
      (replicate (length states_list + 1) (0::nat))"
  have s1: "states1 = map snd (surviving states_list)"
    using r by (rule relabel_states_states)
  have ty: "fst all_the_labels = Int64"
    using r by (cases "fst all_the_labels") (auto simp: relabel_states_def Let_def)
  have l1: "labels1 = (Int64, map (map (\<lambda>l. if l \<noteq> 0 then ?map ! l else l)) (snd all_the_labels))"
    and inb: "list_all (list_all (\<lambda>l. l < length ?map)) (snd all_the_labels)"
    using r ty by (auto simp: relabel_states_def Let_def split: if_splits)
  have k: "length (map fst (surviving states_list)) = ?k" by (simp add: s1)
  have vals: "\<forall>p \<in> set (fold (\<lambda>(index, state_index). AList.update state_index (index + 1))
        (enumerate 0 (map fst (surviving states_list))) []). snd p \<le> ?k"
    by (rule state_mapping_values) (auto simp: in_set_enumerate_eq s1)
  have mapk: "list_all (\<lambda>v. v \<le> ?k) ?map"
    using vals by (rule relabel_map_values) (simp add: list_all_iff)
  have bound: "list_all (list_all (\<lambda>l. l \<le> ?k)) (snd labels1)"
    using inb mapk unfolding l1 by (auto simp: list_all_iff)
  have surv: "surviving states1 = enumerate 0 states1"
    unfolding s1 by (rule surviving_idem)
  have map2: "fold (\<lambda>(key, val) m. m[key + 1 := val])
      (fold (\<lambda>(index, state_index). AList.update state_index (index + 1))
        (enumerate 0 (map fst (surviving states1))) [])
      (replicate (length states1 + 1) (0::nat)) = [0..<?k + 1]"
    unfolding surv map_fst_enumerate state_mapping_upt
    using relabel_map_upt [of ?k ?k] by simp
  have fix_label: "(if l \<noteq> 0 then [0..<?k + 1] ! l else l) = l" if "l \<le> ?k" for l :: nat
    using that nth_upt [of 0 l "?k + 1"] by simp
  have same_row: "map (\<lambda>l. if l \<noteq> 0 then [0..<?k + 1] ! l else l) row = row"
    if "row \<in> set (snd labels1)" for row
  proof (rule map_idI)
    fix l assume "l \<in> set row"
    then have "l \<le> ?k" using bound that by (auto simp: list_all_iff)
    then show "(if l \<noteq> 0 then [0..<?k + 1] ! l else l) = l" by (rule fix_label)
  qed
  have same: "map (map (\<lambda>l. if l \<noteq> 0 then [0..<?k + 1] ! l else l)) (snd labels1) = snd labels1"
    by (rule map_idI) (rule same_row)
  have chk: "list_all (list_all (\<lambda>l. l < length [0..<?k + 1])) (snd labels1)"
    using bound by (auto simp: list_all_iff less_Suc_eq_le)
  have f: "fst labels1 = Int64" by (simp add: l1)
  have st: "map snd (surviving states1) = states1"
    unfolding surv by simp
  show ?thesis
    unfolding relabel_states_def Let_def map2 st using chk same f
    by (cases labels1) (simp del: upt_Suc)
qed

text \<open>
  Claim C7. For every label array and every list of states, relabelling twice gives what
  relabelling once gives: the same label matrix and the same ordered list of states, or
  the same exception.
\<close>

theorem relabel_states_idempotent:
  "relabel_twice all_the_labels states_list = relabel_states all_the_labels states_list"
proof (cases "relabel_states all_the_labels states_list")
  case (Inl e)
  then show ?thesis by (simp add: relabel_twice_def)
next
  case (Inr res)
  obtain labels1 states1 where res: "res = (labels1, states1)" by (cases res)
  have "relabel_states labels1 states1 = Inr (labels1, states1)"
    using Inr unfolding res by (rule relabel_states_idem)
  then show ?thesis using Inr res by (simp add: relabel_twice_def)
qed

text \<open>Two states found in the order of the means 7 and 5: the labels 1 and 2 are swapped
  and the states are sorted, once and for all.\<close>

lemma relabel_states_example:
  "relabel_states (Int64, [[1, 2, 0]]) [ex_state\<lparr>mean := 7, perc := Fin 1\<rparr>, ex_state\<lparr>perc := Fin 1\<rparr>]
     = Inr ((Int64, [[2, 1, 0]]), [ex_state\<lparr>perc := Fin 1\<rparr>, ex_state\<lparr>mean := 7, perc := Fin 1\<rparr>])"
  by (simp add: relabel_states_def surviving_def np_ne_zero_def ex_state_def enumerate_eq_zip
      upt_conv_Cons)

theorem relabel_states_idempotent_witness:
  "relabel_twice (Int64, [[1, 2, 0]]) [ex_state\<lparr>mean := 7, perc := Fin 1\<rparr>, ex_state\<lparr>perc := Fin 1\<rparr>]
     = Inr ((Int64, [[2, 1, 0]]), [ex_state\<lparr>perc := Fin 1\<rparr>, ex_state\<lparr>mean := 7, perc := Fin 1\<rparr>])"
  using relabel_states_idempotent [of "(Int64, [[1, 2, 0]])"
      "[ex_state\<lparr>mean := 7, perc := Fin 1\<rparr>, ex_state\<lparr>perc := Fin 1\<rparr>]"]
  unfolding relabel_states_example by simp

text \<open>Two states with the same parameters are two objects: each keeps its label.\<close>

lemma relabel_states_example_equal_states:
  "relabel_states (Int64, [[1, 2]]) [ex_state\<lparr>perc := Fin 1\<rparr>, ex_state\<lparr>perc := Fin 1\<rparr>]
     = Inr ((Int64, [[1, 2]]), [ex_state\<lparr>perc := Fin 1\<rparr>, ex_state\<lparr>perc := Fin 1\<rparr>])"
  by (simp add: relabel_states_def surviving_def np_ne_zero_def ex_state_def enumerate_eq_zip
      upt_conv_Cons)

text \<open>On a \<open>float64\<close> label array the index is refused.\<close>

lemma relabel_states_float: "relabel_states (Float64, labels) sts = Inl IndexError"
  by (simp add: relabel_states_def Let_def)

section \<open>Properties of the search\<close>

lemma find_stable_trj_fraction:
  "find_stable_trj m tau st labels offset = Inr (new_labels, m_next, counter, one_last)
     \<Longrightarrow> counter = np_div (length (filter id (concat (stable_mask st m labels (shape1 labels) tau))))
           (array_size labels)"
  by (auto simp: find_stable_trj_def Let_def split: if_splits)

lemma np_le_zero_np_div: "np_le_zero (np_div c n) \<Longrightarrow> np_div c n = Fin 0"
  by (auto simp: np_le_zero_def np_div_def divide_le_0_iff split: if_splits)

text \<open>A state of relevance 0 at the end of the list is not selected, and the selection
  of the others is not changed.\<close>

lemma surviving_append_irrelevant:
  "\<not> np_ne_zero (perc s) \<Longrightarrow> surviving (sts @ [s]) = surviving sts"
  by (simp add: surviving_def enumerate_append_eq)

lemma surviving_positions: "p \<in> set (surviving sts) \<Longrightarrow> fst p < length sts"
  by (auto simp: surviving_def in_set_enumerate_eq)

text \<open>On an integer label matrix the relabelling returns the list of states without a
  last state of relevance 0.\<close>

lemma relabel_states_drops_last:
  assumes "\<not> np_ne_zero (perc s)"
    and "list_all (list_all (\<lambda>l. l \<le> length sts + 1)) labels"
  shows "\<exists>labels1. relabel_states (Int64, labels) (sts @ [s])
           = Inr ((Int64, labels1), map snd (surviving sts))"
  using relabel_states_returns [of "sts @ [s]" labels] assms
  by (simp add: surviving_append_irrelevant)

text \<open>The search hands a \<open>float64\<close> label matrix to \<open>relabel_states\<close>: it returns no
  result.\<close>

lemma iterative_search_no_result: "iterative_search fit m_clean tau_w \<noteq> Some (Inr r)"
  by (auto simp: iterative_search_def Let_def relabel_states_float
      split: option.splits sum.splits)

text \<open>
  Claim C6, as the code has it. When the newly classified fraction is \<open>\<le> 0\<close> the loop
  stops at once and the state just found is appended to the raw list of states, as its
  last element; its relevance is that fraction, 0. The relabelling step that ends the
  search selects the states of nonzero relevance: the selection is the one made among the
  states found before, and the position of the state just found is not in it.
\<close>

theorem iterative_search_stop_no_data:
  assumes fit: "fit m_copy = Inr (Some st)"
    and cls: "find_stable_trj m_clean tau_w st all_the_labels states_counter
                = Inr (new_labels, m_next, counter, one_last)"
    and stop: "np_le_zero counter"
  shows "iterative_search_loop fit m_clean tau_w all_the_labels states_list m_copy states_counter
             one_last_state
           = Some (Inr (new_labels, states_list @ [st\<lparr>perc := counter\<rparr>], one_last))
         \<and> counter = Fin 0
         \<and> surviving (states_list @ [st\<lparr>perc := counter\<rparr>]) = surviving states_list
         \<and> length states_list \<notin> fst ` set (surviving (states_list @ [st\<lparr>perc := counter\<rparr>]))"
proof -
  have zero: "counter = Fin 0"
    using find_stable_trj_fraction [OF cls] stop np_le_zero_np_div by simp
  have loop: "iterative_search_loop fit m_clean tau_w all_the_labels states_list m_copy
                states_counter one_last_state
              = Some (Inr (new_labels, states_list @ [st\<lparr>perc := counter\<rparr>], one_last))"
    by (subst iterative_search_loop.simps) (simp add: fit cls stop)
  have surv: "surviving (states_list @ [st\<lparr>perc := counter\<rparr>]) = surviving states_list"
    by (rule surviving_append_irrelevant) (simp add: zero np_ne_zero_def)
  have "length states_list \<notin> fst ` set (surviving states_list)"
    by (force dest: surviving_positions)
  then show ?thesis using loop zero surv by simp
qed

lemma find_stable_trj_example_none:
  "find_stable_trj [[0, 10]] 2 ex_state [[0]] 0 = Inr ([[0]], [[0, 10]], Fin 0, True)"
  by (simp add: find_stable_trj_def stable_mask_def reshape_row_def window_def shape1_def
      is_array2_def array_size_def np_div_def ex_state_def Let_def upt_conv_Cons)

lemma iterative_search_loop_example:
  "iterative_search_loop (\<lambda>m. Inr (Some ex_state)) [[0, 10]] 2 [[0]] [] [[0, 10]] 0 False
     = Some (Inr ([[0]], [ex_state\<lparr>perc := Fin 0\<rparr>], True))"
  by (subst iterative_search_loop.simps) (simp add: find_stable_trj_example_none np_le_zero_def)

lemma relabel_states_example_zero:
  "relabel_states (Int64, [[0]]) [ex_state\<lparr>perc := Fin 0\<rparr>] = Inr ((Int64, [[0]]), [])"
  by (simp add: relabel_states_def surviving_def np_ne_zero_def ex_state_def enumerate_eq_zip)

text \<open>A search whose first state classifies nothing: the fraction is 0 and the loop
  stops with that state in the raw list. The search returns no list of states, and the
  list the relabelling gives for the same labels in an integer matrix is empty.\<close>

theorem iterative_search_drops_last_state:
  "find_stable_trj [[0, 10]] 2 ex_state [[0]] 0 = Inr ([[0]], [[0, 10]], Fin 0, True)
   \<and> np_le_zero (Fin 0)
   \<and> iterative_search_loop (\<lambda>m. Inr (Some ex_state)) [[0, 10]] 2 [[0]] [] [[0, 10]] 0 False
       = Some (Inr ([[0]], [ex_state\<lparr>perc := Fin 0\<rparr>], True))
   \<and> iterative_search (\<lambda>m. Inr (Some ex_state)) [[0, 10]] 2 = Some (Inl IndexError)
   \<and> relabel_states (Int64, [[0]]) [ex_state\<lparr>perc := Fin 0\<rparr>] = Inr ((Int64, [[0]]), [])"
proof -
  have "iterative_search (\<lambda>m. Inr (Some ex_state)) [[0, 10]] 2 = Some (Inl IndexError)"
    by (simp add: iterative_search_def shape1_def iterative_search_loop_example
        relabel_states_float Let_def)
  then show ?thesis
    using find_stable_trj_example_none iterative_search_loop_example relabel_states_example_zero
    by (simp add: np_le_zero_def)
qed

text \<open>A second state that classifies nothing, after a first state that took the only
  window.\<close>

theorem iterative_search_stop_no_data_witness:
  "iterative_search_loop (\<lambda>m. Inr (Some ex_state)) [[0, 10]] 2 [[1]]
       [ex_state\<lparr>mean := 7, perc := Fin 1\<rparr>] [] 1 False
     = Some (Inr ([[1]], [ex_state\<lparr>mean := 7, perc := Fin 1\<rparr>, ex_state\<lparr>perc := Fin 0\<rparr>], False))
   \<and> surviving [ex_state\<lparr>mean := 7, perc := Fin 1\<rparr>, ex_state\<lparr>perc := Fin 0\<rparr>]
       = [(0, ex_state\<lparr>mean := 7, perc := Fin 1\<rparr>)]"
proof -
  have cls: "find_stable_trj [[0, 10]] 2 ex_state [[1]] 1 = Inr ([[1]], [], Fin 0, False)"
    by (simp add: find_stable_trj_def stable_mask_def reshape_row_def window_def shape1_def
      is_array2_def array_size_def np_div_def ex_state_def Let_def upt_conv_Cons)
  have stop: "np_le_zero (Fin 0)" by (simp add: np_le_zero_def)
  have s: "surviving [ex_state\<lparr>mean := 7, perc := Fin 1\<rparr>] = [(0, ex_state\<lparr>mean := 7, perc := Fin 1\<rparr>)]"
    by (simp add: surviving_def np_ne_zero_def ex_state_def enumerate_eq_zip)
  show ?thesis
    using iterative_search_stop_no_data [of "\<lambda>m. Inr (Some ex_state)" "[]" ex_state
        "[[0, 10]]" 2 "[[1]]" 1, OF refl cls stop, of "[ex_state\<lparr>mean := 7, perc := Fin 1\<rparr>]" False]
    by (simp add: s)
qed

section \<open>Properties of the analysis of one configuration\<close>

lemma choose_fit_None:
  "choose_fit (flag_min, goodness_min, popt_min) (flag_half, goodness_half, popt_half) = None
     \<longleftrightarrow> \<not> flag_min \<and> \<not> flag_half"
  by (simp add: choose_fit_def)

text \<open>The analysis of a configuration returns no result either: it ends with the
  exception of the search, or the search does not end.\<close>

lemma timeseries_analysis_no_result:
  "timeseries_analysis fit set_final_states m_raw tau_w t_smooth \<noteq> Some (Inr r)"
  using iterative_search_no_result [of fit _ tau_w]
  by (auto simp: timeseries_analysis_def split: sum.splits option.splits prod.splits)




section \<open>Properties of the merger\<close>





















section \<open>Properties of the goodness score\<close>












end
